theory Spec2Isabelle
  imports Main "HOL-Library.Word"
begin

unbundle bit_operations_syntax

section \<open>Qt value types used by CacheSpace\<close>

text \<open>
  C++ \<open>int\<close> is a 32-bit two's complement integer: a \<open>32 word\<close>, read with
  \<open>sint\<close>.  \<open>QPoint\<close>, \<open>QSize\<close> and \<open>QRect\<close> are the Qt value classes: a point
  holds \<open>xp, yp\<close>, a size holds \<open>wd, ht\<close> and a rectangle holds its two corners
  \<open>x1, y1, x2, y2\<close>.  Their operators work componentwise on \<open>int\<close>.
\<close>

type_synonym cint = "32 word"

record QPoint =
  xp :: cint
  yp :: cint

record QSize =
  wd :: cint
  ht :: cint

record QRect =
  x1 :: cint
  y1 :: cint
  x2 :: cint
  y2 :: cint

definition QPoint_plus :: "QPoint \<Rightarrow> QPoint \<Rightarrow> QPoint" where
  "QPoint_plus p q = \<lparr>xp = xp p + xp q, yp = yp p + yp q\<rparr>"

definition QPoint_minus :: "QPoint \<Rightarrow> QPoint \<Rightarrow> QPoint" where
  "QPoint_minus p q = \<lparr>xp = xp p - xp q, yp = yp p - yp q\<rparr>"

definition QSize_plus :: "QSize \<Rightarrow> QSize \<Rightarrow> QSize" where
  "QSize_plus a b = \<lparr>wd = wd a + wd b, ht = ht a + ht b\<rparr>"

definition QSize_minus :: "QSize \<Rightarrow> QSize \<Rightarrow> QSize" where
  "QSize_minus a b = \<lparr>wd = wd a - wd b, ht = ht a - ht b\<rparr>"

text \<open>\<open>QRect(x, y, w, h)\<close> stores the corners \<open>(x, y)\<close> and \<open>(x + w - 1, y + h - 1)\<close>.\<close>

definition QRect_xywh :: "cint \<Rightarrow> cint \<Rightarrow> cint \<Rightarrow> cint \<Rightarrow> QRect" where
  "QRect_xywh x y w h = \<lparr>x1 = x, y1 = y, x2 = x + w - 1, y2 = y + h - 1\<rparr>"

definition topLeft :: "QRect \<Rightarrow> QPoint" where
  "topLeft r = \<lparr>xp = x1 r, yp = y1 r\<rparr>"

definition size_of :: "QRect \<Rightarrow> QSize" where
  "size_of r = \<lparr>wd = x2 r - x1 r + 1, ht = y2 r - y1 r + 1\<rparr>"

text \<open>
  \<open>QRect::normalized\<close> as Qt 5 implements it: a pair of bad coordinates
  (\<open>x2 < x1 - 1\<close>) is swapped.  The comparison is the signed one of \<open>int\<close>.
  \<open>setWindow\<close> below takes the normalisation as a parameter; this definition is the
  instance used on concrete inputs.
\<close>

definition qt_normalized :: "QRect \<Rightarrow> QRect" where
  "qt_normalized r =
     (let (a1, a2) = (if x2 r <s x1 r - 1 then (x2 r, x1 r) else (x1 r, x2 r));
          (b1, b2) = (if y2 r <s y1 r - 1 then (y2 r, y1 r) else (y1 r, y2 r))
      in \<lparr>x1 = a1, y1 = b1, x2 = a2, y2 = b2\<rparr>)"

section \<open>The CacheSpace object\<close>

text \<open>
  \<open>ChangeReason\<close> and \<open>ViewApplicationMask\<close> are bit masks.  Cache items are held
  through \<open>QSharedPointer<CacheItem>\<close>: a pointer is an address, the objects live
  in \<open>heap\<close>.  A draw proxy is a callable; the member \<open>m_drawProxy\<close> holds a handle
  of it, and what calling it does is a parameter of the model (\<open>DrawProxy_call\<close>
  below).  \<open>trace\<close> records, in order, the signals the cache space emits and the
  calls made on the painter, on \<open>CacheItem::draw\<close> and on a draw proxy.
\<close>

type_synonym ChangeReason = "32 word"
type_synonym ViewApplicationMask = "32 word"
type_synonym addr = nat
type_synonym SpacePtr = nat
type_synonym DrawProxy = nat

datatype error = AssertFailed | NullDereference | BadFunctionCall | Raised nat

datatype Event =
    CacheChanged ChangeReason
  | PreDraw
  | PainterSave
  | PainterSetClipRect QRect
  | PainterRestore
  | ItemDraw addr QRect
  | DrawProxyCall DrawProxy

record ('f, 'i) CacheSpace =
  m_space :: SpacePtr
  m_viewApplicationMask :: ViewApplicationMask
  m_cacheItemsFactory :: "'f option"
  m_window :: QRect
  m_scrollOffset :: QPoint
  m_scrollDelta :: QPoint
  m_sizeDelta :: QSize
  m_itemsCacheInvalid :: bool
  m_cacheIsInUse :: bool
  m_drawProxy :: "DrawProxy option"
  cacheItems :: "addr list"
  heap :: "addr \<Rightarrow> 'i"
  trace :: "Event list"

definition originPos :: "('f, 'i) CacheSpace \<Rightarrow> QPoint" where
  "originPos s = QPoint_minus (topLeft (m_window s)) (m_scrollOffset s)"

definition window2Space :: "('f, 'i) CacheSpace \<Rightarrow> QPoint \<Rightarrow> QPoint" where
  "window2Space s windowPoint =
     QPoint_plus (QPoint_minus windowPoint (topLeft (m_window s))) (m_scrollOffset s)"

definition space2Window :: "('f, 'i) CacheSpace \<Rightarrow> QPoint \<Rightarrow> QPoint" where
  "space2Window s spacePoint =
     QPoint_plus (QPoint_minus spacePoint (m_scrollOffset s)) (topLeft (m_window s))"

text \<open>
  Modelled from the spec: the class \<open>CacheView\<close> is declared outside the source
  files; the spec says "a tree node over a CacheItem" and "Trees may have arbitrary
  fan-out; no cycles".  A node carries an identifier and its children.
\<close>

datatype CacheView = CacheView nat "CacheView list"

text \<open>
  \<open>IterateInfo\<close> is the record \<open>forEachCacheView\<close> hands to its visitor (CacheSpace.h);
  its constructor sets both indices to 0 and the view pointer to null, and the shared
  pointer starts out null.
\<close>

record IterateInfo =
  cacheItem :: "addr option"
  cacheItemIndex :: cint
  cacheView :: "CacheView option"
  cacheViewIndex :: cint

definition IterateInfo_new :: IterateInfo where
  "IterateInfo_new = \<lparr>cacheItem = None, cacheItemIndex = 0, cacheView = None, cacheViewIndex = 0\<rparr>"

subsection \<open>What CacheSpace.cpp calls but does not define\<close>

text \<open>
  The collaborators of \<open>CacheSpace\<close> are declared in headers outside the two source
  files: the \<open>ChangeReason\<close> bits, \<open>Space::createCacheItemFactory\<close>,
  \<open>CacheItemFactory::updateSchema\<close>, the methods of \<open>CacheItem\<close>, the pure
  virtual \<open>validateItemsCacheImpl\<close>, and Qt's \<open>QRect::normalized\<close> and
  \<open>Q_ASSERT\<close> (active in a debug build only), and the callable behind a draw
  proxy.  They are parameters of the model.
  A null \<open>QSharedPointer\<close> is \<open>None\<close>.  \<open>CacheItem::draw\<close> paints on the painter
  it is given or raises; the schema and view operations of an item return the item
  as they leave it.
\<close>

record ('f, 'i, 'c) Externals =
  qt_debug :: bool
  ChangeReasonSpaceStructure :: ChangeReason
  ChangeReasonSpaceHint :: ChangeReason
  ChangeReasonSpaceItemsStructure :: ChangeReason
  ChangeReasonSpaceItemsContent :: ChangeReason
  ChangeReasonCacheContent :: ChangeReason
  QRect_normalized :: "QRect \<Rightarrow> QRect"
  Space_createCacheItemFactory :: "SpacePtr \<Rightarrow> ViewApplicationMask \<Rightarrow> 'f option"
  CacheItemFactory_updateSchema :: "'f \<Rightarrow> 'i \<Rightarrow> 'i"
  CacheItem_invalidateCacheView :: "'i \<Rightarrow> 'i"
  CacheItem_validateCacheView :: "'i \<Rightarrow> 'c \<Rightarrow> QRect \<Rightarrow> 'i"
  CacheItem_cacheView :: "'i \<Rightarrow> CacheView option"
  CacheItem_draw :: "'i \<Rightarrow> 'c \<Rightarrow> QRect \<Rightarrow> error + unit"
  validateItemsCacheImpl :: "('f, 'i) CacheSpace \<Rightarrow> (error + unit) \<times> ('f, 'i) CacheSpace"
  DrawProxy_call ::
    "DrawProxy \<Rightarrow> 'c \<Rightarrow> ('f, 'i) CacheSpace \<Rightarrow> (error + unit) \<times> ('f, 'i) CacheSpace"

subsection \<open>Control flow\<close>

text \<open>
  A call either returns a value or leaves through an error (a failed assertion, a
  null dereference, a call of an empty \<open>std::function\<close>, an exception of a
  collaborator); the state reached so far is kept in both cases.
\<close>

definition andThen ::
  "('s \<Rightarrow> (error + 'a) \<times> 's) \<Rightarrow> ('a \<Rightarrow> 's \<Rightarrow> (error + 'b) \<times> 's) \<Rightarrow> 's \<Rightarrow> (error + 'b) \<times> 's" where
  "andThen m f s = (case m s of (Inl e, s') \<Rightarrow> (Inl e, s') | (Inr a, s') \<Rightarrow> f a s')"

definition Q_ASSERT :: "('f, 'i, 'c) Externals \<Rightarrow> bool \<Rightarrow> 's \<Rightarrow> (error + unit) \<times> 's" where
  "Q_ASSERT env cond s = (if qt_debug env \<and> \<not> cond then (Inl AssertFailed, s) else (Inr (), s))"

text \<open>The conversion to \<open>bool\<close> of a smart pointer or of a \<open>std::function\<close>.\<close>

definition notNull :: "'a option \<Rightarrow> bool" where
  "notNull p = (case p of None \<Rightarrow> False | Some x \<Rightarrow> True)"

definition invoke ::
  "('a \<Rightarrow> 's \<Rightarrow> (error + 'b) \<times> 's) option \<Rightarrow> 'a \<Rightarrow> 's \<Rightarrow> (error + 'b) \<times> 's" where
  "invoke fn a s = (case fn of None \<Rightarrow> (Inl BadFunctionCall, s) | Some f \<Rightarrow> f a s)"

definition emit :: "Event \<Rightarrow> ('f, 'i) CacheSpace \<Rightarrow> (error + unit) \<times> ('f, 'i) CacheSpace" where
  "emit ev s = (Inr (), s\<lparr>trace := trace s @ [ev]\<rparr>)"

text \<open>
  A loop over a sequence with a boolean visitor: it stops at the first visitor that
  returns false or leaves through an error.
\<close>

fun visitEach ::
  "('a \<Rightarrow> 's \<Rightarrow> (error + bool) \<times> 's) \<Rightarrow> 'a list \<Rightarrow> 's \<Rightarrow> (error + bool) \<times> 's" where
  "visitEach visitor [] s = (Inr True, s)"
| "visitEach visitor (a # as) s =
     (case visitor a s of
        (Inl e, s') \<Rightarrow> (Inl e, s')
      | (Inr False, s') \<Rightarrow> (Inr False, s')
      | (Inr True, s') \<Rightarrow> visitEach visitor as s')"

text \<open>
  A visitor is a closure: it works on the variables it captured (\<open>'u\<close>) and on the
  cache space.  A lambda of \<open>CacheSpace.cpp\<close> that captures nothing but \<open>this\<close>
  runs with \<open>'u = unit\<close>.
\<close>

definition discardResult ::
  "(unit \<times> 's \<Rightarrow> (error + bool) \<times> (unit \<times> 's)) \<Rightarrow> 's \<Rightarrow> (error + unit) \<times> 's" where
  "discardResult m s =
     (case m ((), s) of (Inl e, (_, s')) \<Rightarrow> (Inl e, s') | (Inr _, (_, s')) \<Rightarrow> (Inr (), s'))"

subsection \<open>The subclass and the helpers of the repository\<close>

text \<open>
  Modelled from the spec: \<open>clearItemsCacheImpl\<close> is pure virtual; the spec says that
  \<open>clear()\<close> "discards all cached items".  The subclass's storage is the sequence
  \<open>cacheItems\<close>.
\<close>

definition clearItemsCacheImpl :: "('f, 'i) CacheSpace \<Rightarrow> (error + unit) \<times> ('f, 'i) CacheSpace" where
  "clearItemsCacheImpl s = (Inr (), s\<lparr>cacheItems := []\<rparr>)"

text \<open>
  Modelled from the spec: \<open>forEachCacheItemImpl\<close> is pure virtual; the spec says that
  it "iterates cached items in the subclass-defined order; visitor returns a boolean
  to continue/stop; overall returns whether iteration completed (true) or was halted
  (false)".  The items visited are those cached when the iteration starts.
\<close>

definition forEachCacheItemImpl ::
  "(addr \<Rightarrow> 'u \<times> ('f, 'i) CacheSpace \<Rightarrow> (error + bool) \<times> ('u \<times> ('f, 'i) CacheSpace)) option
   \<Rightarrow> 'u \<times> ('f, 'i) CacheSpace \<Rightarrow> (error + bool) \<times> ('u \<times> ('f, 'i) CacheSpace)" where
  "forEachCacheItemImpl visitor us = visitEach (invoke visitor) (cacheItems (snd us)) us"

text \<open>
  Modelled from the spec: \<open>CacheView::forEachCacheView\<close> is declared outside the
  source files; the spec says "recursive enumeration (\<open>forEachCacheView(visitor)\<close> --
  pre-order, stable, returns early on visitor false)".
\<close>

fun views_preorder :: "CacheView \<Rightarrow> CacheView list" where
  "views_preorder (CacheView n children) =
     CacheView n children # concat (map views_preorder children)"

text \<open>
  Modelled from the spec: \<open>CacheView::forEachCacheView\<close> visits the nodes in the
  order above and "returns early on visitor false".
\<close>

definition CacheView_forEachCacheView ::
  "(CacheView \<Rightarrow> 's \<Rightarrow> (error + bool) \<times> 's) \<Rightarrow> CacheView \<Rightarrow> 's \<Rightarrow> (error + bool) \<times> 's" where
  "CacheView_forEachCacheView visitor root s = visitEach visitor (views_preorder root) s"

text \<open>
  Modelled from the spec: \<open>auto_value\<close> (utils/auto_value.h) is outside the source
  files; the spec says of the guard \<open>auto_value<bool> inUse(m_cacheIsInUse, true)\<close>:
  "Enter the re-entrancy guard (\<open>cacheIsInUse = true\<close>) for the duration of the draw;
  guaranteed restored on all exit paths, including exceptional ones."
\<close>

definition auto_value_inUse ::
  "(('f, 'i) CacheSpace \<Rightarrow> (error + 'a) \<times> ('f, 'i) CacheSpace)
   \<Rightarrow> ('f, 'i) CacheSpace \<Rightarrow> (error + 'a) \<times> ('f, 'i) CacheSpace" where
  "auto_value_inUse body s =
     (let old = m_cacheIsInUse s;
          (r, s') = body (s\<lparr>m_cacheIsInUse := True\<rparr>)
      in (r, s'\<lparr>m_cacheIsInUse := old\<rparr>))"



subsection \<open>CacheSpace.cpp\<close>

definition CacheSpace_new ::
  "('f, 'i, 'c) Externals \<Rightarrow> SpacePtr \<Rightarrow> ViewApplicationMask \<Rightarrow> (addr \<Rightarrow> 'i)
   \<Rightarrow> (error + unit) \<times> ('f, 'i) CacheSpace" where
  "CacheSpace_new env space viewApplicationMask objects =
     (let s = \<lparr>m_space = space,
               m_viewApplicationMask = viewApplicationMask,
               m_cacheItemsFactory = Space_createCacheItemFactory env space viewApplicationMask,
               m_window = QRect_xywh 0 0 0 0,
               m_scrollOffset = \<lparr>xp = 0, yp = 0\<rparr>,
               m_scrollDelta = \<lparr>xp = 0, yp = 0\<rparr>,
               m_sizeDelta = \<lparr>wd = 0, ht = 0\<rparr>,
               m_itemsCacheInvalid = True,
               m_cacheIsInUse = False,
               m_drawProxy = None,
               cacheItems = [],
               heap = objects,
               trace = []\<rparr>
      in Q_ASSERT env (notNull (m_cacheItemsFactory s)) s)"

definition viewApplicationMask :: "('f, 'i) CacheSpace \<Rightarrow> ViewApplicationMask" where
  "viewApplicationMask s = m_viewApplicationMask s"

definition invalidateItemsCache ::
  "('f, 'i, 'c) Externals \<Rightarrow> ('f, 'i) CacheSpace \<Rightarrow> (error + unit) \<times> ('f, 'i) CacheSpace" where
  "invalidateItemsCache env s =
     andThen (Q_ASSERT env (\<not> m_cacheIsInUse s))
       (\<lambda>_ s1. emit (CacheChanged (ChangeReasonCacheContent env)) (s1\<lparr>m_itemsCacheInvalid := True\<rparr>)) s"

definition clearItemsCache ::
  "('f, 'i, 'c) Externals \<Rightarrow> ('f, 'i) CacheSpace \<Rightarrow> (error + unit) \<times> ('f, 'i) CacheSpace" where
  "clearItemsCache env s =
     andThen (Q_ASSERT env (\<not> m_cacheIsInUse s)) (\<lambda>_. clearItemsCacheImpl) s"

definition clear ::
  "('f, 'i, 'c) Externals \<Rightarrow> ('f, 'i) CacheSpace \<Rightarrow> (error + unit) \<times> ('f, 'i) CacheSpace" where
  "clear env = andThen (clearItemsCache env) (\<lambda>_. invalidateItemsCache env)"

definition forEachCacheItem ::
  "('f, 'i, 'c) Externals
   \<Rightarrow> (addr \<Rightarrow> 'u \<times> ('f, 'i) CacheSpace \<Rightarrow> (error + bool) \<times> ('u \<times> ('f, 'i) CacheSpace)) option
   \<Rightarrow> 'u \<times> ('f, 'i) CacheSpace \<Rightarrow> (error + bool) \<times> ('u \<times> ('f, 'i) CacheSpace)" where
  "forEachCacheItem env visitor =
     andThen (Q_ASSERT env (notNull visitor)) (\<lambda>_. forEachCacheItemImpl visitor)"

text \<open>The lambda of \<open>updateCacheItemsFactory\<close>; it captures \<open>this\<close> only.\<close>

fun updateSchemas_visitor ::
  "('f, 'i, 'c) Externals \<Rightarrow> addr \<Rightarrow> 'u \<times> ('f, 'i) CacheSpace
   \<Rightarrow> (error + bool) \<times> ('u \<times> ('f, 'i) CacheSpace)" where
  "updateSchemas_visitor env a (u, w) =
       (let w1 = w\<lparr>heap := (heap w)(a := CacheItem_invalidateCacheView env (heap w a))\<rparr>
        in case m_cacheItemsFactory w1 of
             None \<Rightarrow> (Inl NullDereference, (u, w1))
           | Some f \<Rightarrow>
               (Inr True,
                (u, w1\<lparr>heap := (heap w1)(a := CacheItemFactory_updateSchema env f (heap w1 a))\<rparr>)))"

definition updateCacheItemsFactory ::
  "('f, 'i, 'c) Externals \<Rightarrow> ('f, 'i) CacheSpace \<Rightarrow> (error + unit) \<times> ('f, 'i) CacheSpace" where
  "updateCacheItemsFactory env s =
     (let s1 = s\<lparr>m_cacheItemsFactory :=
                  Space_createCacheItemFactory env (m_space s) (m_viewApplicationMask s)\<rparr>
      in andThen (Q_ASSERT env (notNull (m_cacheItemsFactory s1)))
           (\<lambda>_. discardResult (forEachCacheItem env (Some (updateSchemas_visitor env))))
           s1)"

definition onSpaceChanged ::
  "('f, 'i, 'c) Externals \<Rightarrow> SpacePtr \<Rightarrow> ChangeReason
   \<Rightarrow> ('f, 'i) CacheSpace \<Rightarrow> (error + unit) \<times> ('f, 'i) CacheSpace" where
  "onSpaceChanged env space reason s =
     andThen (Q_ASSERT env (space = m_space s))
       (\<lambda>_. if reason AND ChangeReasonSpaceStructure env \<noteq> 0 then clear env
            else if reason AND (ChangeReasonSpaceHint env OR ChangeReasonSpaceItemsStructure env) \<noteq> 0
            then andThen (updateCacheItemsFactory env)
                   (\<lambda>_. emit (CacheChanged (reason OR ChangeReasonCacheContent env)))
            else if reason AND ChangeReasonSpaceItemsContent env \<noteq> 0
            then emit (CacheChanged (reason OR ChangeReasonCacheContent env))
            else (\<lambda>s1. (Inr (), s1)))
       s"

definition setViewApplicationMask ::
  "('f, 'i, 'c) Externals \<Rightarrow> ViewApplicationMask
   \<Rightarrow> ('f, 'i) CacheSpace \<Rightarrow> (error + unit) \<times> ('f, 'i) CacheSpace" where
  "setViewApplicationMask env viewApplicationMask' s =
     (if m_viewApplicationMask s \<noteq> viewApplicationMask'
      then andThen (updateCacheItemsFactory env)
             (\<lambda>_. emit (CacheChanged (ChangeReasonCacheContent env))) s
      else (Inr (), s))"

definition setWindow ::
  "('f, 'i, 'c) Externals \<Rightarrow> QRect \<Rightarrow> ('f, 'i) CacheSpace \<Rightarrow> (error + unit) \<times> ('f, 'i) CacheSpace" where
  "setWindow env window s =
     (if m_window s = window then (Inr (), s)
      else
        let window' = QRect_normalized env window;
            delta = QPoint_minus (topLeft window') (topLeft (m_window s))
        in invalidateItemsCache env
             (s\<lparr>m_scrollDelta := QPoint_plus (m_scrollDelta s) delta,
                m_sizeDelta := QSize_plus (m_sizeDelta s)
                                 (QSize_minus (size_of window') (size_of (m_window s))),
                m_window := window'\<rparr>))"

definition setScrollOffset ::
  "('f, 'i, 'c) Externals \<Rightarrow> QPoint \<Rightarrow> ('f, 'i) CacheSpace \<Rightarrow> (error + unit) \<times> ('f, 'i) CacheSpace" where
  "setScrollOffset env scrollOffset s =
     (if m_scrollOffset s = scrollOffset then (Inr (), s)
      else
        let offset = QPoint_minus (m_scrollOffset s) scrollOffset
        in invalidateItemsCache env
             (s\<lparr>m_scrollDelta := QPoint_plus (m_scrollDelta s) offset,
                m_scrollOffset := scrollOffset\<rparr>))"

definition set_window_and_offset ::
  "('f, 'i, 'c) Externals \<Rightarrow> QRect \<Rightarrow> QPoint
   \<Rightarrow> ('f, 'i) CacheSpace \<Rightarrow> (error + unit) \<times> ('f, 'i) CacheSpace" where
  "set_window_and_offset env window scrollOffset =
     andThen (setWindow env window) (\<lambda>_. setScrollOffset env scrollOffset)"

definition validateItemsCache ::
  "('f, 'i, 'c) Externals \<Rightarrow> ('f, 'i) CacheSpace \<Rightarrow> (error + unit) \<times> ('f, 'i) CacheSpace" where
  "validateItemsCache env s =
     (if \<not> m_itemsCacheInvalid s then (Inr (), s) else validateItemsCacheImpl env s)"

text \<open>
  The two lambdas of \<open>forEachCacheView\<close>.  Both capture the caller's \<open>visitor\<close> and
  the local \<open>info\<close> by reference, so \<open>info\<close> travels with the variables the visitor
  itself captured.
\<close>

fun forEachCacheView_inner ::
  "(IterateInfo \<Rightarrow> 'u \<times> 's \<Rightarrow> (error + bool) \<times> ('u \<times> 's)) option
   \<Rightarrow> CacheView \<Rightarrow> (IterateInfo \<times> 'u) \<times> 's \<Rightarrow> (error + bool) \<times> ((IterateInfo \<times> 'u) \<times> 's)" where
  "forEachCacheView_inner visitor cv ((info, u), s) =
       (let info1 = info\<lparr>cacheView := Some cv\<rparr>
        in case invoke visitor info1 (u, s) of
             (Inl e, (u', s')) \<Rightarrow> (Inl e, ((info1, u'), s'))
           | (Inr result, (u', s')) \<Rightarrow>
               (Inr result, ((info1\<lparr>cacheViewIndex := cacheViewIndex info1 + 1\<rparr>, u'), s')))"

fun forEachCacheView_outer ::
  "('f, 'i, 'c) Externals
   \<Rightarrow> (IterateInfo \<Rightarrow> 'u \<times> ('f, 'i) CacheSpace \<Rightarrow> (error + bool) \<times> ('u \<times> ('f, 'i) CacheSpace)) option
   \<Rightarrow> addr \<Rightarrow> (IterateInfo \<times> 'u) \<times> ('f, 'i) CacheSpace
   \<Rightarrow> (error + bool) \<times> ((IterateInfo \<times> 'u) \<times> ('f, 'i) CacheSpace)" where
  "forEachCacheView_outer env visitor a ((info, u), s) =
       (let info1 = info\<lparr>cacheItem := Some a, cacheViewIndex := 0\<rparr>;
            rootCacheView = CacheItem_cacheView env (heap s a)
        in case (case rootCacheView of
                   None \<Rightarrow> (Inr True, ((info1, u), s))
                 | Some root \<Rightarrow>
                     CacheView_forEachCacheView (forEachCacheView_inner visitor) root ((info1, u), s)) of
             (Inl e, st') \<Rightarrow> (Inl e, st')
           | (Inr result, ((info2, u2), s2)) \<Rightarrow>
               (Inr result, ((info2\<lparr>cacheItemIndex := cacheItemIndex info2 + 1\<rparr>, u2), s2)))"

definition forEachCacheView ::
  "('f, 'i, 'c) Externals
   \<Rightarrow> (IterateInfo \<Rightarrow> 'u \<times> ('f, 'i) CacheSpace \<Rightarrow> (error + bool) \<times> ('u \<times> ('f, 'i) CacheSpace)) option
   \<Rightarrow> 'u \<times> ('f, 'i) CacheSpace \<Rightarrow> (error + bool) \<times> ('u \<times> ('f, 'i) CacheSpace)" where
  "forEachCacheView env visitor =
     andThen (Q_ASSERT env (notNull visitor))
       (\<lambda>_ us.
          let done = forEachCacheItem env (Some (forEachCacheView_outer env visitor))
                       ((IterateInfo_new, fst us), snd us)
          in (fst done, (snd (fst (snd done)), snd (snd done))))"

text \<open>
  The two lambdas of \<open>draw\<close>.  The painter is the caller's; its calls are recorded in
  \<open>trace\<close>, the call of \<open>CacheItem::draw\<close> with them.
\<close>

fun draw_validate_visitor ::
  "('f, 'i, 'c) Externals \<Rightarrow> 'c \<Rightarrow> addr \<Rightarrow> 'u \<times> ('f, 'i) CacheSpace
   \<Rightarrow> (error + bool) \<times> ('u \<times> ('f, 'i) CacheSpace)" where
  "draw_validate_visitor env ctx a (u, w) =
       (Inr True,
        (u, w\<lparr>heap := (heap w)(a := CacheItem_validateCacheView env (heap w a) ctx (m_window w))\<rparr>))"

fun draw_paint_visitor ::
  "('f, 'i, 'c) Externals \<Rightarrow> 'c \<Rightarrow> addr \<Rightarrow> 'u \<times> ('f, 'i) CacheSpace
   \<Rightarrow> (error + bool) \<times> ('u \<times> ('f, 'i) CacheSpace)" where
  "draw_paint_visitor env ctx a (u, w) =
       (case CacheItem_draw env (heap w a) ctx (m_window w) of
          Inl e \<Rightarrow> (Inl e, (u, w\<lparr>trace := trace w @ [ItemDraw a (m_window w)]\<rparr>))
        | Inr _ \<Rightarrow> (Inr True, (u, w\<lparr>trace := trace w @ [ItemDraw a (m_window w)]\<rparr>)))"

definition draw ::
  "('f, 'i, 'c) Externals \<Rightarrow> 'c \<Rightarrow> ('f, 'i) CacheSpace \<Rightarrow> (error + unit) \<times> ('f, 'i) CacheSpace" where
  "draw env ctx =
     andThen (validateItemsCache env)
       (\<lambda>_. auto_value_inUse
          (andThen (discardResult (forEachCacheItem env (Some (draw_validate_visitor env ctx))))
             (\<lambda>_. andThen (emit PreDraw)
             (\<lambda>_. andThen (emit PainterSave)
             (\<lambda>_. andThen (\<lambda>s. emit (PainterSetClipRect (m_window s)) s)
             (\<lambda>_. andThen (discardResult (forEachCacheItem env (Some (draw_paint_visitor env ctx))))
             (\<lambda>_. emit PainterRestore)))))))"

subsection \<open>The draw proxy as the spec describes it\<close>




section \<open>A concrete instance\<close>

text \<open>
  An instance of the collaborators on which the model runs: the five
  \<open>ChangeReason\<close> bits are 1, 2, 4, 8 and 16, a factory is the mask it was created
  for, a cache item records the schema it was last wired to, its view tree and
  whether painting it raises, and a draw proxy paints nothing.
\<close>

record DemoItem =
  schemaOf :: ViewApplicationMask
  viewOf :: "CacheView option"
  paintRaises :: bool

definition demoExternals :: "bool \<Rightarrow> (ViewApplicationMask, DemoItem, unit) Externals" where
  "demoExternals debug =
     \<lparr>qt_debug = debug,
      ChangeReasonSpaceStructure = 1,
      ChangeReasonSpaceHint = 2,
      ChangeReasonSpaceItemsStructure = 4,
      ChangeReasonSpaceItemsContent = 8,
      ChangeReasonCacheContent = 16,
      QRect_normalized = qt_normalized,
      Space_createCacheItemFactory = (\<lambda>space m. Some m),
      CacheItemFactory_updateSchema = (\<lambda>f i. i\<lparr>schemaOf := f\<rparr>),
      CacheItem_invalidateCacheView = (\<lambda>i. i\<lparr>viewOf := None\<rparr>),
      CacheItem_validateCacheView =
        (\<lambda>i ctx window. case viewOf i of None \<Rightarrow> i\<lparr>viewOf := Some (CacheView 0 [])\<rparr> | Some v \<Rightarrow> i),
      CacheItem_cacheView = viewOf,
      CacheItem_draw = (\<lambda>i ctx window. if paintRaises i then Inl (Raised 0) else Inr ()),
      validateItemsCacheImpl =
        (\<lambda>s. (Inr (), s\<lparr>m_scrollDelta := \<lparr>xp = 0, yp = 0\<rparr>,
                          m_sizeDelta := \<lparr>wd = 0, ht = 0\<rparr>,
                          m_itemsCacheInvalid := False\<rparr>)),
      DrawProxy_call = (\<lambda>p ctx s. (Inr (), s))\<rparr>"

definition demoItem :: "bool \<Rightarrow> addr \<Rightarrow> DemoItem" where
  "demoItem raises a =
     \<lparr>schemaOf = 1,
      viewOf = (if a = 0 then Some (CacheView 7 [CacheView 8 [], CacheView 9 []]) else None),
      paintRaises = raises\<rparr>"

text \<open>
  A cache space over the window \<open>(0, 0, 100, 30)\<close> that holds the items at the
  addresses 0 and 1, validated and not in use.
\<close>

definition demoSpace :: "bool \<Rightarrow> (ViewApplicationMask, DemoItem) CacheSpace" where
  "demoSpace raises =
     \<lparr>m_space = 0,
      m_viewApplicationMask = 1,
      m_cacheItemsFactory = Some 1,
      m_window = QRect_xywh 0 0 100 30,
      m_scrollOffset = \<lparr>xp = 0, yp = 0\<rparr>,
      m_scrollDelta = \<lparr>xp = 0, yp = 0\<rparr>,
      m_sizeDelta = \<lparr>wd = 0, ht = 0\<rparr>,
      m_itemsCacheInvalid = False,
      m_cacheIsInUse = False,
      m_drawProxy = None,
      cacheItems = [0, 1],
      heap = demoItem raises,
      trace = []\<rparr>"

section \<open>Visitors and expected traversals\<close>



text \<open>
  A visitor of \<open>forEachCacheView\<close> that observes: \<open>obs\<close> takes the \<open>IterateInfo\<close> and
  the variables the visitor captured, and gives the visitor's answer and the captured
  variables as it leaves them.  Such a visitor leaves the cache space alone and does
  not raise.  \<open>record_while continue\<close> is the observer that appends each info to a
  list and answers what \<open>continue\<close> says of it.
\<close>

fun observing_visitor ::
  "(IterateInfo \<Rightarrow> 'u \<Rightarrow> bool \<times> 'u) \<Rightarrow> IterateInfo \<Rightarrow> 'u \<times> 's
   \<Rightarrow> (error + bool) \<times> ('u \<times> 's)" where
  "observing_visitor obs info (u, s) = (Inr (fst (obs info u)), (snd (obs info u), s))"

definition record_while :: "('a \<Rightarrow> bool) \<Rightarrow> 'a \<Rightarrow> 'a list \<Rightarrow> bool \<times> 'a list" where
  "record_while continue x seen = (continue x, seen @ [x])"

text \<open>
  An observer run over a sequence, first element first, up to and including the first
  element it answers false to; the result is whether it never answered false.
\<close>

fun observe :: "('a \<Rightarrow> 'u \<Rightarrow> bool \<times> 'u) \<Rightarrow> 'a list \<Rightarrow> 'u \<Rightarrow> bool \<times> 'u" where
  "observe obs [] u = (True, u)"
| "observe obs (x # xs) u =
     (if fst (obs x u) then observe obs xs (snd (obs x u)) else (False, snd (obs x u)))"

text \<open>
  The view nodes of the item at an address, in the order of its tree's enumeration
  (none when the item has no view tree), and the infos a full traversal hands out:
  the view \<open>j\<close> of the item \<open>i\<close> comes with the indices \<open>i\<close> and \<open>j\<close>.  \<open>infosFrom\<close> is
  the same list for a sequence of items whose first has the index \<open>k\<close>.
\<close>

definition viewsOf :: "('f, 'i, 'c) Externals \<Rightarrow> ('f, 'i) CacheSpace \<Rightarrow> addr \<Rightarrow> CacheView list" where
  "viewsOf env s a =
     (case CacheItem_cacheView env (heap s a) of None \<Rightarrow> [] | Some root \<Rightarrow> views_preorder root)"

definition infosFrom ::
  "('f, 'i, 'c) Externals \<Rightarrow> ('f, 'i) CacheSpace \<Rightarrow> nat \<Rightarrow> addr list \<Rightarrow> IterateInfo list" where
  "infosFrom env s k as =
     concat (map (\<lambda>i. map (\<lambda>j. \<lparr>cacheItem = Some (as ! i),
                                 cacheItemIndex = of_nat (k + i),
                                 cacheView = Some (viewsOf env s (as ! i) ! j),
                                 cacheViewIndex = of_nat j\<rparr>)
                          [0..<length (viewsOf env s (as ! i))])
                 [0..<length as])"

definition expectedInfos :: "('f, 'i, 'c) Externals \<Rightarrow> ('f, 'i) CacheSpace \<Rightarrow> IterateInfo list" where
  "expectedInfos env s =
     concat (map (\<lambda>i. map (\<lambda>j. \<lparr>cacheItem = Some (cacheItems s ! i),
                                 cacheItemIndex = of_nat i,
                                 cacheView = Some (viewsOf env s (cacheItems s ! i) ! j),
                                 cacheViewIndex = of_nat j\<rparr>)
                          [0..<length (viewsOf env s (cacheItems s ! i))])
                 [0..<length (cacheItems s)])"

text \<open>
  What a traversal that stops at the first refusal visits of a sequence: the elements
  accepted by \<open>continue\<close> up to the first one it refuses, and that one.
\<close>

definition visited :: "('a \<Rightarrow> bool) \<Rightarrow> 'a list \<Rightarrow> 'a list" where
  "visited continue xs = takeWhile continue xs @ take 1 (dropWhile continue xs)"

section \<open>Coordinate conversion\<close>

text \<open>
  C5.  For every point and every state of the cache space, \<open>window2Space\<close> and
  \<open>space2Window\<close> are inverse to each other in both orders, and they compute
  \<open>p - window.topLeft + scrollOffset\<close> and \<open>p - scrollOffset + window.topLeft\<close>
  coordinate by coordinate.  The arithmetic is that of 32-bit \<open>int\<close>, so the
  identities hold exactly, wrap-around included.
\<close>

theorem window_space_roundtrip:
  "space2Window s (window2Space s p) = p
   \<and> window2Space s (space2Window s p) = p
   \<and> window2Space s p =
       \<lparr>xp = xp p - x1 (m_window s) + xp (m_scrollOffset s),
        yp = yp p - y1 (m_window s) + yp (m_scrollOffset s)\<rparr>
   \<and> space2Window s p =
       \<lparr>xp = xp p - xp (m_scrollOffset s) + x1 (m_window s),
        yp = yp p - yp (m_scrollOffset s) + y1 (m_window s)\<rparr>"
  by (simp add: window2Space_def space2Window_def QPoint_plus_def QPoint_minus_def topLeft_def)


section \<open>Basic facts about the control flow\<close>

lemmas demo_defs = demoExternals_def demoSpace_def demoItem_def

lemmas flow_defs = andThen_def Q_ASSERT_def invoke_def emit_def discardResult_def
  forEachCacheItem_def forEachCacheItemImpl_def

lemma invoke_Some [simp]: "invoke (Some f) = f"
  by (simp add: invoke_def fun_eq_iff)

lemma notNull_simps [simp]: "notNull (Some x)" "\<not> notNull None"
  by (simp_all add: notNull_def)

lemma forEach_first:
  "forEachCacheItem env (Some visitor) (u, s) = visitEach visitor (cacheItems s) (u, s)"
  by (simp add: forEachCacheItem_def forEachCacheItemImpl_def andThen_def Q_ASSERT_def)

lemma QPoint_plus_zero: "QPoint_plus p (QPoint_minus q q) = p"
  by (simp add: QPoint_plus_def QPoint_minus_def)

lemma QSize_plus_zero: "QSize_plus p (QSize_minus q q) = p"
  by (simp add: QSize_plus_def QSize_minus_def)

lemma clear_ok:
  "\<not> (qt_debug env \<and> m_cacheIsInUse s) \<Longrightarrow>
   clear env s = (Inr (), s\<lparr>cacheItems := [], m_itemsCacheInvalid := True,
                    trace := trace s @ [CacheChanged (ChangeReasonCacheContent env)]\<rparr>)"
  by (auto simp: clear_def clearItemsCache_def clearItemsCacheImpl_def invalidateItemsCache_def
      andThen_def Q_ASSERT_def emit_def)


text \<open>
  The loop of \<open>updateCacheItemsFactory\<close>: with a factory in place, every address of
  the sequence has its item invalidated and then re-schemaed, in order.
\<close>

lemma reschema_loop:
  "m_cacheItemsFactory w = Some f \<Longrightarrow>
   visitEach (updateSchemas_visitor env) as (u, w)
   = (Inr True,
      (u, w\<lparr>heap := fold (\<lambda>a h. h(a := CacheItemFactory_updateSchema env f
                                         (CacheItem_invalidateCacheView env (h a)))) as (heap w)\<rparr>))"
proof (induction as arbitrary: w)
  case Nil
  then show ?case by simp
next
  case (Cons a as)
  then show ?case by (simp add: Let_def)
qed

lemma fold_update_distinct:
  "distinct as \<Longrightarrow>
   fold (\<lambda>a h. h(a := g (h a))) as h = (\<lambda>a. if a \<in> set as then g (h a) else h a)"
proof (induction as arbitrary: h)
  case Nil
  then show ?case by simp
next
  case (Cons b as)
  then show ?case by (auto simp: fun_eq_iff)
qed

lemma updateCacheItemsFactory_ok:
  assumes "Space_createCacheItemFactory env (m_space s) (m_viewApplicationMask s) = Some f"
  shows "updateCacheItemsFactory env s =
     (Inr (), s\<lparr>m_cacheItemsFactory := Some f,
                heap := fold (\<lambda>a h. h(a := CacheItemFactory_updateSchema env f
                                         (CacheItem_invalidateCacheView env (h a))))
                          (cacheItems s) (heap s)\<rparr>)"
  using assms
  by (simp add: updateCacheItemsFactory_def Let_def andThen_def Q_ASSERT_def discardResult_def
      forEachCacheItem_def forEachCacheItemImpl_def reschema_loop)

section \<open>Change classification\<close>

text \<open>
  C4.  The handler of \<open>Space::spaceChanged\<close> classifies the reason mask \<open>R\<close> in a
  fixed order.  With the \<open>SpaceStructure\<close> bit the cache is cleared and exactly one
  \<open>cacheChanged(CacheContent)\<close> is emitted.  Otherwise, with a \<open>SpaceHint\<close> or
  \<open>SpaceItemsStructure\<close> bit the factory is rebuilt, every cached item is
  invalidated and re-schemaed, and \<open>cacheChanged(R | CacheContent)\<close> is emitted.
  Otherwise, with the \<open>SpaceItemsContent\<close> bit only \<open>cacheChanged(R | CacheContent)\<close>
  is emitted.  Otherwise nothing happens.  The values of the bits are arbitrary.
  The handler's assertions are taken to hold in a debug build: the sender is the
  observed space, the cache is not in use when it is cleared, and the space returns
  a factory.
\<close>

theorem onSpaceChanged_classification:
  assumes "\<not> (qt_debug env \<and> space \<noteq> m_space s)"
  shows
   "(R AND ChangeReasonSpaceStructure env \<noteq> 0 \<and> \<not> (qt_debug env \<and> m_cacheIsInUse s) \<longrightarrow>
       onSpaceChanged env space R s =
         (Inr (), s\<lparr>cacheItems := [], m_itemsCacheInvalid := True,
                    trace := trace s @ [CacheChanged (ChangeReasonCacheContent env)]\<rparr>))
    \<and> (R AND ChangeReasonSpaceStructure env = 0
        \<and> R AND (ChangeReasonSpaceHint env OR ChangeReasonSpaceItemsStructure env) \<noteq> 0
        \<and> Space_createCacheItemFactory env (m_space s) (m_viewApplicationMask s) = Some f \<longrightarrow>
       onSpaceChanged env space R s =
         (Inr (), s\<lparr>m_cacheItemsFactory := Some f,
                    heap := fold (\<lambda>a h. h(a := CacheItemFactory_updateSchema env f
                                             (CacheItem_invalidateCacheView env (h a))))
                              (cacheItems s) (heap s),
                    trace := trace s @ [CacheChanged (R OR ChangeReasonCacheContent env)]\<rparr>)
       \<and> (distinct (cacheItems s) \<and> a \<in> set (cacheItems s) \<longrightarrow>
            heap (snd (onSpaceChanged env space R s)) a =
              CacheItemFactory_updateSchema env f (CacheItem_invalidateCacheView env (heap s a))))
    \<and> (R AND ChangeReasonSpaceStructure env = 0
        \<and> R AND (ChangeReasonSpaceHint env OR ChangeReasonSpaceItemsStructure env) = 0
        \<and> R AND ChangeReasonSpaceItemsContent env \<noteq> 0 \<longrightarrow>
       onSpaceChanged env space R s =
         (Inr (), s\<lparr>trace := trace s @ [CacheChanged (R OR ChangeReasonCacheContent env)]\<rparr>))
    \<and> (R AND ChangeReasonSpaceStructure env = 0
        \<and> R AND (ChangeReasonSpaceHint env OR ChangeReasonSpaceItemsStructure env) = 0
        \<and> R AND ChangeReasonSpaceItemsContent env = 0 \<longrightarrow>
       onSpaceChanged env space R s = (Inr (), s))"
proof -
  have pre: "Q_ASSERT env (space = m_space s) s = (Inr (), s)"
    using assms by (auto simp: Q_ASSERT_def)
  note at = fold_update_distinct
    [where g = "\<lambda>x. CacheItemFactory_updateSchema env f (CacheItem_invalidateCacheView env x)"]
  show ?thesis
    by (auto simp: onSpaceChanged_def andThen_def pre clear_ok updateCacheItemsFactory_ok emit_def at)
qed

text \<open>
  On the concrete instance, in a debug build: the reasons 1 (\<open>SpaceStructure\<close>),
  2 (\<open>SpaceHint\<close>), 8 (\<open>SpaceItemsContent\<close>) and 16 (\<open>CacheContent\<close> alone).
\<close>

theorem onSpaceChanged_classification_witness:
  "onSpaceChanged (demoExternals True) 0 1 (demoSpace False) =
     (Inr (), (demoSpace False)\<lparr>cacheItems := [], m_itemsCacheInvalid := True,
                 trace := [CacheChanged 16]\<rparr>)
   \<and> fst (onSpaceChanged (demoExternals True) 0 2 (demoSpace False)) = Inr ()
   \<and> trace (snd (onSpaceChanged (demoExternals True) 0 2 (demoSpace False))) = [CacheChanged 18]
   \<and> heap (snd (onSpaceChanged (demoExternals True) 0 2 (demoSpace False))) 0 =
        \<lparr>schemaOf = 1, viewOf = None, paintRaises = False\<rparr>
   \<and> onSpaceChanged (demoExternals True) 0 8 (demoSpace False) =
       (Inr (), (demoSpace False)\<lparr>trace := [CacheChanged 24]\<rparr>)
   \<and> onSpaceChanged (demoExternals True) 0 16 (demoSpace False) = (Inr (), demoSpace False)"
  using onSpaceChanged_classification [of "demoExternals True" 0 "demoSpace False" 1 1 0]
        onSpaceChanged_classification [of "demoExternals True" 0 "demoSpace False" 2 1 0]
        onSpaceChanged_classification [of "demoExternals True" 0 "demoSpace False" 8 1 0]
        onSpaceChanged_classification [of "demoExternals True" 0 "demoSpace False" 16 1 0]
  by (simp add: demo_defs)

section \<open>The view application mask\<close>

text \<open>
  C10.  \<open>setViewApplicationMask\<close> called with the mask the cache space already has
  does nothing: it returns with the whole state unchanged, so the factory and every
  cached item are as before and no signal is emitted.
\<close>

theorem setViewApplicationMask_same_noop:
  "setViewApplicationMask env (viewApplicationMask s) s = (Inr (), s)"
  by (simp add: setViewApplicationMask_def viewApplicationMask_def)

text \<open>
  No path through \<open>setViewApplicationMask\<close> assigns \<open>m_viewApplicationMask\<close>: whatever
  the mask passed and however the call is left, \<open>viewApplicationMask()\<close> returns
  afterwards what it returned before.
\<close>

lemma updateSchemas_keeps_mask:
  "m_viewApplicationMask (snd (snd (visitEach (updateSchemas_visitor env) as (u, w))))
     = m_viewApplicationMask w"
  by (induction as arbitrary: w) (simp_all add: Let_def split: option.splits)

lemma setViewApplicationMask_never_stores:
  "viewApplicationMask (snd (setViewApplicationMask env m s)) = viewApplicationMask s"
proof -
  have "m_viewApplicationMask (snd (updateCacheItemsFactory env s)) = m_viewApplicationMask s"
    using updateSchemas_keeps_mask [of env "cacheItems s" "()"
        "s\<lparr>m_cacheItemsFactory := Space_createCacheItemFactory env (m_space s) (m_viewApplicationMask s)\<rparr>"]
    by (auto simp: updateCacheItemsFactory_def Let_def andThen_def Q_ASSERT_def discardResult_def
        forEach_first split: prod.splits sum.splits)
  then show ?thesis
    by (auto simp: setViewApplicationMask_def viewApplicationMask_def andThen_def emit_def
        split: prod.splits sum.splits)
qed

text \<open>
  C1.  \<open>setViewApplicationMask\<close> called with a different mask never stores it.  On
  the concrete instance with mask 1, the call with mask 2 returns normally and emits
  \<open>cacheChanged(CacheContent)\<close>, but \<open>viewApplicationMask()\<close> still returns 1 and the
  rebuilt factory is the one for mask 1.
\<close>

theorem setViewApplicationMask_keeps_old_mask:
  "fst (setViewApplicationMask (demoExternals True) 2 (demoSpace False)) = Inr ()
   \<and> viewApplicationMask (snd (setViewApplicationMask (demoExternals True) 2 (demoSpace False))) = 1
   \<and> m_cacheItemsFactory (snd (setViewApplicationMask (demoExternals True) 2 (demoSpace False))) = Some 1
   \<and> trace (snd (setViewApplicationMask (demoExternals True) 2 (demoSpace False))) = [CacheChanged 16]"
  by (simp add: setViewApplicationMask_def updateCacheItemsFactory_def viewApplicationMask_def
       demo_defs flow_defs Let_def)

section \<open>Window and scroll offset\<close>

text \<open>
  C6.  \<open>setScrollOffset(q)\<close> with \<open>q\<close> equal to the current offset returns with the
  state unchanged and nothing emitted.  With a different \<open>q\<close> it adds the old offset
  minus \<open>q\<close> to \<open>scrollDelta\<close> and stores \<open>q\<close>; then, past the assertion of
  \<open>invalidateItemsCache\<close> (the cache is not in use, checked in a debug build), it sets
  \<open>itemsCacheInvalid\<close> and emits \<open>cacheChanged(CacheContent)\<close>, and nothing else
  changes.
\<close>

theorem setScrollOffset_effect:
  "setScrollOffset env (m_scrollOffset s) s = (Inr (), s)
   \<and> (q \<noteq> m_scrollOffset s \<longrightarrow>
        m_scrollDelta (snd (setScrollOffset env q s))
          = QPoint_plus (m_scrollDelta s) (QPoint_minus (m_scrollOffset s) q)
        \<and> m_scrollOffset (snd (setScrollOffset env q s)) = q
        \<and> (\<not> (qt_debug env \<and> m_cacheIsInUse s) \<longrightarrow>
             setScrollOffset env q s =
               (Inr (), s\<lparr>m_scrollDelta := QPoint_plus (m_scrollDelta s) (QPoint_minus (m_scrollOffset s) q),
                          m_scrollOffset := q,
                          m_itemsCacheInvalid := True,
                          trace := trace s @ [CacheChanged (ChangeReasonCacheContent env)]\<rparr>)))"
  by (auto simp: setScrollOffset_def Let_def invalidateItemsCache_def andThen_def Q_ASSERT_def emit_def)

text \<open>Scrolling the concrete instance from \<open>(0, 0)\<close> to \<open>(0, 25)\<close> in a debug build.\<close>

theorem setScrollOffset_effect_witness:
  "setScrollOffset (demoExternals True) \<lparr>xp = 0, yp = 25\<rparr> (demoSpace False) =
     (Inr (), (demoSpace False)\<lparr>m_scrollDelta := \<lparr>xp = 0, yp = - 25\<rparr>,
                 m_scrollOffset := \<lparr>xp = 0, yp = 25\<rparr>,
                 m_itemsCacheInvalid := True,
                 trace := [CacheChanged 16]\<rparr>)"
  using setScrollOffset_effect [of "demoExternals True" "demoSpace False" "\<lparr>xp = 0, yp = 25\<rparr>"]
  by (simp add: demo_defs QPoint_plus_def QPoint_minus_def)

text \<open>
  C9.  \<open>setWindow\<close> compares the stored window with its argument as given, before
  normalising it.  An argument equal to the stored window returns at once.  An
  argument that differs from the stored window but normalises to it goes on:
  \<open>window\<close>, \<open>scrollDelta\<close> and \<open>sizeDelta\<close> keep their values, and
  \<open>itemsCacheInvalid\<close> is set and \<open>cacheChanged(CacheContent)\<close> emitted all the same
  (past the assertion that the cache is not in use).  This holds for every
  normalisation function.
\<close>

theorem setWindow_unnormalized_same_window:
  "setWindow env (m_window s) s = (Inr (), s)
   \<and> (w \<noteq> m_window s \<and> QRect_normalized env w = m_window s
        \<and> \<not> (qt_debug env \<and> m_cacheIsInUse s) \<longrightarrow>
      setWindow env w s =
        (Inr (), s\<lparr>m_itemsCacheInvalid := True,
                   trace := trace s @ [CacheChanged (ChangeReasonCacheContent env)]\<rparr>))"
  by (auto simp: setWindow_def Let_def QPoint_plus_zero QSize_plus_zero invalidateItemsCache_def
      andThen_def Q_ASSERT_def emit_def)

text \<open>
  The stored window of the concrete instance has the corners \<open>(0, 0)\<close> and
  \<open>(99, 29)\<close>; the rectangle with \<open>x1 = 99\<close> and \<open>x2 = 0\<close> normalises to it.
\<close>

theorem setWindow_unnormalized_same_window_witness:
  "\<lparr>x1 = 99, y1 = 0, x2 = 0, y2 = 29\<rparr> \<noteq> m_window (demoSpace False)
   \<and> qt_normalized \<lparr>x1 = 99, y1 = 0, x2 = 0, y2 = 29\<rparr> = m_window (demoSpace False)
   \<and> setWindow (demoExternals True) \<lparr>x1 = 99, y1 = 0, x2 = 0, y2 = 29\<rparr> (demoSpace False) =
       (Inr (), (demoSpace False)\<lparr>m_itemsCacheInvalid := True, trace := [CacheChanged 16]\<rparr>)"
  using setWindow_unnormalized_same_window
    [of "demoExternals True" "demoSpace False" "\<lparr>x1 = 99, y1 = 0, x2 = 0, y2 = 29\<rparr>"]
  by (simp add: demo_defs qt_normalized_def QRect_xywh_def word_sless_alt)

section \<open>Drawing\<close>

lemma validate_loop:
  "visitEach (draw_validate_visitor env ctx) as (u, w) =
     (Inr True,
      (u, w\<lparr>heap := fold (\<lambda>a h. h(a := CacheItem_validateCacheView env (h a) ctx (m_window w)))
                      as (heap w)\<rparr>))"
  by (induction as arbitrary: w) simp_all

lemma paint_loop_ok:
  "\<forall>a\<in>set as. CacheItem_draw env (heap w a) ctx (m_window w) = Inr () \<Longrightarrow>
   visitEach (draw_paint_visitor env ctx) as (u, w) =
     (Inr True, (u, w\<lparr>trace := trace w @ map (\<lambda>a. ItemDraw a (m_window w)) as\<rparr>))"
  by (induction as arbitrary: w) simp_all

lemma paint_loop_raise:
  "\<forall>a\<in>set pre. CacheItem_draw env (heap w a) ctx (m_window w) = Inr () \<Longrightarrow>
   CacheItem_draw env (heap w b) ctx (m_window w) = Inl e \<Longrightarrow>
   visitEach (draw_paint_visitor env ctx) (pre @ b # post) (u, w) =
     (Inl e, (u, w\<lparr>trace := trace w @ map (\<lambda>a. ItemDraw a (m_window w)) (pre @ [b])\<rparr>))"
  by (induction pre arbitrary: w) simp_all

text \<open>
  \<open>draw\<close> once the cache is validated: the views are validated under the guard,
  \<open>preDraw\<close> is emitted, the painter is saved and clipped, and the paint loop decides
  how \<open>draw\<close> is left.  The guard is put back either way.
\<close>

lemma draw_after_validation:
  assumes v: "validateItemsCache env s = (Inr (), s1)"
    and h: "h = fold (\<lambda>a h. h(a := CacheItem_validateCacheView env (h a) ctx (m_window s1)))
                  (cacheItems s1) (heap s1)"
  shows "draw env ctx s =
     (case visitEach (draw_paint_visitor env ctx) (cacheItems s1)
             ((), s1\<lparr>m_cacheIsInUse := True, heap := h,
                      trace := trace s1 @ [PreDraw, PainterSave, PainterSetClipRect (m_window s1)]\<rparr>) of
        (Inl e, (_, s')) \<Rightarrow> (Inl e, s'\<lparr>m_cacheIsInUse := m_cacheIsInUse s1\<rparr>)
      | (Inr _, (_, s')) \<Rightarrow>
          (Inr (), s'\<lparr>trace := trace s' @ [PainterRestore], m_cacheIsInUse := m_cacheIsInUse s1\<rparr>))"
  by (simp add: draw_def andThen_def v auto_value_inUse_def discardResult_def
      forEachCacheItem_def forEachCacheItemImpl_def Q_ASSERT_def validate_loop h [symmetric]
      emit_def split: prod.splits sum.splits)

lemmas draw_defs = draw_def validateItemsCache_def auto_value_inUse_def

lemma demo_validated:
  "validateItemsCache (demoExternals True) (demoSpace r) = (Inr (), demoSpace r)"
  by (simp add: validateItemsCache_def demo_defs)

lemma demo_views_validated:
  "(demoItem r)(1 := \<lparr>schemaOf = 1, viewOf = Some (CacheView 0 []), paintRaises = r\<rparr>)
     = fold (\<lambda>a h. h(a := CacheItem_validateCacheView (demoExternals True) (h a) ()
                            (m_window (demoSpace r))))
         (cacheItems (demoSpace r)) (heap (demoSpace r))"
  by (simp add: demo_defs fun_eq_iff)

text \<open>
  C3, as the code has it.  When the cache validates and painting no cached item
  raises, \<open>draw\<close> returns normally and the painter calls it made are \<open>save\<close>,
  \<open>setClipRect(window)\<close>, one \<open>CacheItem::draw\<close> per cached item and \<open>restore\<close>:
  the save is balanced.  When painting the item \<open>b\<close> raises \<open>e\<close>, \<open>draw\<close> is left
  with \<open>e\<close> right after that call: \<open>restore\<close> is not executed, and of the two scoped
  acquisitions only the in-use guard is put back.
\<close>

theorem draw_save_restore:
  assumes v: "validateItemsCache env s = (Inr (), s1)"
    and h: "h = fold (\<lambda>a h. h(a := CacheItem_validateCacheView env (h a) ctx (m_window s1)))
                  (cacheItems s1) (heap s1)"
  shows
   "((\<forall>a\<in>set (cacheItems s1). CacheItem_draw env (h a) ctx (m_window s1) = Inr ()) \<longrightarrow>
       draw env ctx s =
         (Inr (), s1\<lparr>heap := h,
                     trace := trace s1 @ [PreDraw, PainterSave, PainterSetClipRect (m_window s1)]
                                @ map (\<lambda>a. ItemDraw a (m_window s1)) (cacheItems s1)
                                @ [PainterRestore]\<rparr>))
    \<and> (cacheItems s1 = pre @ b # post
        \<and> (\<forall>a\<in>set pre. CacheItem_draw env (h a) ctx (m_window s1) = Inr ())
        \<and> CacheItem_draw env (h b) ctx (m_window s1) = Inl e \<longrightarrow>
       draw env ctx s =
         (Inl e, s1\<lparr>heap := h,
                    trace := trace s1 @ [PreDraw, PainterSave, PainterSetClipRect (m_window s1)]
                               @ map (\<lambda>a. ItemDraw a (m_window s1)) (pre @ [b])\<rparr>))"
proof (intro conjI impI)
  let ?s2 = "s1\<lparr>m_cacheIsInUse := True, heap := h,
                 trace := trace s1 @ [PreDraw, PainterSave, PainterSetClipRect (m_window s1)]\<rparr>"
  assume ok: "\<forall>a\<in>set (cacheItems s1). CacheItem_draw env (h a) ctx (m_window s1) = Inr ()"
  have "visitEach (draw_paint_visitor env ctx) (cacheItems s1) ((), ?s2) =
          (Inr True, ((), ?s2\<lparr>trace := trace ?s2 @ map (\<lambda>a. ItemDraw a (m_window ?s2)) (cacheItems s1)\<rparr>))"
    using ok by (intro paint_loop_ok) simp
  then show "draw env ctx s =
         (Inr (), s1\<lparr>heap := h,
                     trace := trace s1 @ [PreDraw, PainterSave, PainterSetClipRect (m_window s1)]
                                @ map (\<lambda>a. ItemDraw a (m_window s1)) (cacheItems s1)
                                @ [PainterRestore]\<rparr>)"
    by (simp add: draw_after_validation [OF v h])
next
  let ?s2 = "s1\<lparr>m_cacheIsInUse := True, heap := h,
                 trace := trace s1 @ [PreDraw, PainterSave, PainterSetClipRect (m_window s1)]\<rparr>"
  assume a: "cacheItems s1 = pre @ b # post
        \<and> (\<forall>a\<in>set pre. CacheItem_draw env (h a) ctx (m_window s1) = Inr ())
        \<and> CacheItem_draw env (h b) ctx (m_window s1) = Inl e"
  have "visitEach (draw_paint_visitor env ctx) (pre @ b # post) ((), ?s2) =
          (Inl e, ((), ?s2\<lparr>trace := trace ?s2 @ map (\<lambda>a. ItemDraw a (m_window ?s2)) (pre @ [b])\<rparr>))"
    using a by (intro paint_loop_raise) simp_all
  then have "visitEach (draw_paint_visitor env ctx) (cacheItems s1) ((), ?s2) =
          (Inl e, ((), ?s2\<lparr>trace := trace ?s2 @ map (\<lambda>a. ItemDraw a (m_window ?s2)) (pre @ [b])\<rparr>))"
    using a by simp
  then show "draw env ctx s =
         (Inl e, s1\<lparr>heap := h,
                    trace := trace s1 @ [PreDraw, PainterSave, PainterSetClipRect (m_window s1)]
                               @ map (\<lambda>a. ItemDraw a (m_window s1)) (pre @ [b])\<rparr>)"
    by (simp add: draw_after_validation [OF v h])
qed

text \<open>
  Both cases on the concrete instance: with items that paint, and with items whose
  painting raises (the first one, at address 0, is where \<open>draw\<close> is left).
\<close>

theorem draw_save_restore_witness:
  "draw (demoExternals True) () (demoSpace False) =
     (Inr (), (demoSpace False)
        \<lparr>heap := (demoItem False)(1 := \<lparr>schemaOf = 1, viewOf = Some (CacheView 0 []), paintRaises = False\<rparr>),
         trace := [PreDraw, PainterSave, PainterSetClipRect (QRect_xywh 0 0 100 30),
                   ItemDraw 0 (QRect_xywh 0 0 100 30), ItemDraw 1 (QRect_xywh 0 0 100 30),
                   PainterRestore]\<rparr>)
   \<and> draw (demoExternals True) () (demoSpace True) =
     (Inl (Raised 0), (demoSpace True)
        \<lparr>heap := (demoItem True)(1 := \<lparr>schemaOf = 1, viewOf = Some (CacheView 0 []), paintRaises = True\<rparr>),
         trace := [PreDraw, PainterSave, PainterSetClipRect (QRect_xywh 0 0 100 30),
                   ItemDraw 0 (QRect_xywh 0 0 100 30)]\<rparr>)"
  using draw_save_restore [OF demo_validated demo_views_validated, of False "[]" 0 "[]" AssertFailed]
        draw_save_restore [OF demo_validated demo_views_validated, of True "[]" 0 "[1]" "Raised 0"]
  by (simp add: demo_defs)

text \<open>
  C3 as stated does not hold of the code.  On the concrete instance with items whose
  painting raises, \<open>draw\<close> is left with the exception, and the painter calls made are
  \<open>save\<close>, \<open>setClipRect\<close> and the paint of the first item: \<open>save\<close> was executed,
  \<open>restore\<close> was not.
\<close>

theorem draw_raise_skips_restore:
  "fst (draw (demoExternals True) () (demoSpace True)) = Inl (Raised 0)
   \<and> trace (snd (draw (demoExternals True) () (demoSpace True))) =
       [PreDraw, PainterSave, PainterSetClipRect (QRect_xywh 0 0 100 30),
        ItemDraw 0 (QRect_xywh 0 0 100 30)]"
  by (simp add: draw_defs demo_defs flow_defs)








section \<open>The in-use guard\<close>













section \<open>The indices of forEachCacheView\<close>

lemma visited_Nil [simp]: "visited p [] = []"
  by (simp add: visited_def)

lemma visited_Cons [simp]: "visited p (x # xs) = (if p x then x # visited p xs else [x])"
  by (simp add: visited_def)

lemma observe_append:
  "observe obs (xs @ ys) u =
     (if fst (observe obs xs u) then observe obs ys (snd (observe obs xs u)) else observe obs xs u)"
  by (induction xs arbitrary: u) simp_all

lemma observe_record_while:
  "observe (record_while p) xs seen = (list_all p xs, seen @ visited p xs)"
  by (induction xs arbitrary: seen) (simp_all add: record_while_def)

lemma infosFrom_Nil [simp]: "infosFrom env s k [] = []"
  by (simp add: infosFrom_def)

lemma infosFrom_Cons:
  "infosFrom env s k (a # as) =
     map (\<lambda>j. \<lparr>cacheItem = Some a, cacheItemIndex = of_nat k,
                cacheView = Some (viewsOf env s a ! j), cacheViewIndex = of_nat j\<rparr>)
         [0..<length (viewsOf env s a)]
     @ infosFrom env s (Suc k) as"
  by (simp add: infosFrom_def map_upt_Suc ac_simps del: upt_Suc)

text \<open>
  The inner lambda over the view nodes of one item: the node \<open>j\<close> is handed out with
  the view index \<open>j0 + j\<close>, and the item and its index are left as they were.
\<close>

lemma inner_loop:
  "\<exists>c' j'. visitEach (forEachCacheView_inner (Some (observing_visitor obs))) vs
       ((\<lparr>cacheItem = Some a, cacheItemIndex = i, cacheView = c, cacheViewIndex = of_nat j0\<rparr>, u), s)
     = (Inr (fst (observe obs (map (\<lambda>j. \<lparr>cacheItem = Some a, cacheItemIndex = i,
                                    cacheView = Some (vs ! j), cacheViewIndex = of_nat (j0 + j)\<rparr>)
                             [0..<length vs]) u)),
        ((\<lparr>cacheItem = Some a, cacheItemIndex = i, cacheView = c', cacheViewIndex = j'\<rparr>,
          snd (observe obs (map (\<lambda>j. \<lparr>cacheItem = Some a, cacheItemIndex = i,
                                    cacheView = Some (vs ! j), cacheViewIndex = of_nat (j0 + j)\<rparr>)
                             [0..<length vs]) u)), s))"
proof (induction vs arbitrary: c j0 u)
  case Nil
  show ?case by simp
next
  case (Cons v vs)
  let ?x = "\<lparr>cacheItem = Some a, cacheItemIndex = i, cacheView = Some v, cacheViewIndex = of_nat j0\<rparr>"
  show ?case
  proof (cases "fst (obs ?x u)")
    case False
    then show ?thesis by (simp add: map_upt_Suc del: upt_Suc)
  next
    case True
    from Cons.IH [of "Some v" "Suc j0" "snd (obs ?x u)"]
    obtain c' j' where
      "visitEach (forEachCacheView_inner (Some (observing_visitor obs))) vs
       ((\<lparr>cacheItem = Some a, cacheItemIndex = i, cacheView = Some v, cacheViewIndex = of_nat (Suc j0)\<rparr>,
         snd (obs ?x u)), s)
     = (Inr (fst (observe obs (map (\<lambda>j. \<lparr>cacheItem = Some a, cacheItemIndex = i,
                                    cacheView = Some (vs ! j), cacheViewIndex = of_nat (Suc j0 + j)\<rparr>)
                             [0..<length vs]) (snd (obs ?x u)))),
        ((\<lparr>cacheItem = Some a, cacheItemIndex = i, cacheView = c', cacheViewIndex = j'\<rparr>,
          snd (observe obs (map (\<lambda>j. \<lparr>cacheItem = Some a, cacheItemIndex = i,
                                    cacheView = Some (vs ! j), cacheViewIndex = of_nat (Suc j0 + j)\<rparr>)
                             [0..<length vs]) (snd (obs ?x u)))), s))"
      by blast
    with True show ?thesis
      by (simp add: map_upt_Suc ac_simps del: upt_Suc)
  qed
qed

text \<open>
  The outer lambda on one item: the view index restarts at 0, the views of the item
  are handed out with the item's index, and the item index is one more afterwards,
  whether the item has a view tree or not.
\<close>

lemma outer_step:
  "\<exists>c' j'. forEachCacheView_outer env (Some (observing_visitor obs)) a
       ((\<lparr>cacheItem = x, cacheItemIndex = of_nat k, cacheView = c, cacheViewIndex = j\<rparr>, u), s)
     = (Inr (fst (observe obs (map (\<lambda>j. \<lparr>cacheItem = Some a, cacheItemIndex = of_nat k,
                cacheView = Some (viewsOf env s a ! j), cacheViewIndex = of_nat j\<rparr>)
                  [0..<length (viewsOf env s a)]) u)),
        ((\<lparr>cacheItem = Some a, cacheItemIndex = of_nat (Suc k), cacheView = c', cacheViewIndex = j'\<rparr>,
          snd (observe obs (map (\<lambda>j. \<lparr>cacheItem = Some a, cacheItemIndex = of_nat k,
                cacheView = Some (viewsOf env s a ! j), cacheViewIndex = of_nat j\<rparr>)
                  [0..<length (viewsOf env s a)]) u)), s))"
proof (cases "CacheItem_cacheView env (heap s a)")
  case None
  then show ?thesis by (simp add: viewsOf_def)
next
  case (Some root)
  from inner_loop [of obs "views_preorder root" a "of_nat k" c 0 u s]
  obtain c' j' where
    "visitEach (forEachCacheView_inner (Some (observing_visitor obs))) (views_preorder root)
       ((\<lparr>cacheItem = Some a, cacheItemIndex = of_nat k, cacheView = c, cacheViewIndex = 0\<rparr>, u), s)
     = (Inr (fst (observe obs (map (\<lambda>j. \<lparr>cacheItem = Some a, cacheItemIndex = of_nat k,
                                    cacheView = Some (views_preorder root ! j), cacheViewIndex = of_nat j\<rparr>)
                             [0..<length (views_preorder root)]) u)),
        ((\<lparr>cacheItem = Some a, cacheItemIndex = of_nat k, cacheView = c', cacheViewIndex = j'\<rparr>,
          snd (observe obs (map (\<lambda>j. \<lparr>cacheItem = Some a, cacheItemIndex = of_nat k,
                                    cacheView = Some (views_preorder root ! j), cacheViewIndex = of_nat j\<rparr>)
                             [0..<length (views_preorder root)]) u)), s))"
    by auto
  with Some show ?thesis
    by (simp add: viewsOf_def CacheView_forEachCacheView_def ac_simps)
qed

lemma outer_loop:
  "\<exists>info'. visitEach (forEachCacheView_outer env (Some (observing_visitor obs))) as
       ((\<lparr>cacheItem = x, cacheItemIndex = of_nat k, cacheView = c, cacheViewIndex = j\<rparr>, u), s)
     = (Inr (fst (observe obs (infosFrom env s k as) u)),
        ((info', snd (observe obs (infosFrom env s k as) u)), s))"
proof (induction as arbitrary: x k c j u)
  case Nil
  show ?case by simp
next
  case (Cons a as)
  let ?V = "map (\<lambda>j. \<lparr>cacheItem = Some a, cacheItemIndex = of_nat k,
                cacheView = Some (viewsOf env s a ! j), cacheViewIndex = of_nat j\<rparr>)
                  [0..<length (viewsOf env s a)]"
  from outer_step [of env obs a x k c j u s]
  obtain c' j' where step:
    "forEachCacheView_outer env (Some (observing_visitor obs)) a
       ((\<lparr>cacheItem = x, cacheItemIndex = of_nat k, cacheView = c, cacheViewIndex = j\<rparr>, u), s)
     = (Inr (fst (observe obs ?V u)),
        ((\<lparr>cacheItem = Some a, cacheItemIndex = of_nat (Suc k), cacheView = c', cacheViewIndex = j'\<rparr>,
          snd (observe obs ?V u)), s))"
    by blast
  show ?case
  proof (cases "fst (observe obs ?V u)")
    case False
    then show ?thesis
      using step by (simp add: infosFrom_Cons observe_append)
  next
    case True
    from Cons.IH [of "Some a" "Suc k" c' j' "snd (observe obs ?V u)"]
    obtain info' where
      "visitEach (forEachCacheView_outer env (Some (observing_visitor obs))) as
         ((\<lparr>cacheItem = Some a, cacheItemIndex = of_nat (Suc k), cacheView = c', cacheViewIndex = j'\<rparr>,
           snd (observe obs ?V u)), s)
       = (Inr (fst (observe obs (infosFrom env s (Suc k) as) (snd (observe obs ?V u)))),
          ((info', snd (observe obs (infosFrom env s (Suc k) as) (snd (observe obs ?V u)))), s))"
      by blast
    with True step show ?thesis
      by (simp add: infosFrom_Cons observe_append)
  qed
qed

text \<open>An index below \<open>2 ^ 31\<close> is the count itself, read as a C++ \<open>int\<close>.\<close>

lemma cint_of_count: "n < 2 ^ 31 \<Longrightarrow> sint (of_nat n :: cint) = int n"
proof -
  assume "n < 2 ^ 31"
  then have "int n < 2 ^ 31"
    by (metis of_nat_less_iff of_nat_numeral of_nat_power)
  then have "signed_take_bit 31 (int n) = int n"
    by (simp add: signed_take_bit_int_eq_self)
  then show ?thesis
    by (simp add: signed_of_nat)
qed

text \<open>
  \<open>forEachCacheView\<close> with an observing visitor is the observer run over
  \<open>expectedInfos\<close>; the cache space is unchanged.
\<close>

lemma forEachCacheView_observe:
  "forEachCacheView env (Some (observing_visitor obs)) (u, s) =
     (Inr (fst (observe obs (expectedInfos env s) u)),
      (snd (observe obs (expectedInfos env s) u), s))"
proof -
  have e: "expectedInfos env s = infosFrom env s 0 (cacheItems s)"
    by (simp add: expectedInfos_def infosFrom_def)
  from outer_loop [of env obs "cacheItems s" None 0 None 0 u s]
  obtain info' where
    "visitEach (forEachCacheView_outer env (Some (observing_visitor obs))) (cacheItems s)
       ((IterateInfo_new, u), s)
     = (Inr (fst (observe obs (infosFrom env s 0 (cacheItems s)) u)),
        ((info', snd (observe obs (infosFrom env s 0 (cacheItems s)) u)), s))"
    by (auto simp: IterateInfo_new_def)
  then show ?thesis
    by (simp add: forEachCacheView_def andThen_def Q_ASSERT_def forEach_first e Let_def)
qed

text \<open>
  C8.  For every visitor that observes, \<open>forEachCacheView\<close> hands it, in order, the
  infos of \<open>expectedInfos\<close>: for the item \<open>i\<close> of the cache (counted from 0, items
  without a view tree counted too) and the view node \<open>j\<close> of its tree,
  \<open>cacheItemIndex = i\<close> and \<open>cacheViewIndex = j\<close>, as 32-bit \<open>int\<close>.  The traversal
  goes up to and including the first info the visitor answers false to, and it
  returns true when the visitor never answers false and false otherwise.  For the
  visitor that records what it is handed: the infos seen are those accepted up to the
  first refused one, and that one.
\<close>

theorem forEachCacheView_indices:
  "forEachCacheView env (Some (observing_visitor obs)) (u, s) =
     (Inr (fst (observe obs (expectedInfos env s) u)),
      (snd (observe obs (expectedInfos env s) u), s))
   \<and> forEachCacheView env (Some (observing_visitor (record_while continue))) (seen, s) =
     (Inr (list_all continue (expectedInfos env s)),
      (seen @ visited continue (expectedInfos env s), s))"
  by (simp add: forEachCacheView_observe observe_record_while)

text \<open>
  On the concrete instance with the cache \<open>[1, 0, 0]\<close>: the item at address 1 has no
  view tree, the item at address 0 has three view nodes.  First a visitor that always
  continues, then one that refuses the view index 1.
\<close>

theorem forEachCacheView_indices_witness:
  "forEachCacheView (demoExternals True) (Some (observing_visitor (record_while (\<lambda>info. True))))
      ([], (demoSpace False)\<lparr>cacheItems := [1, 0, 0]\<rparr>) =
     (Inr True,
      ([\<lparr>cacheItem = Some 0, cacheItemIndex = 1,
         cacheView = Some (CacheView 7 [CacheView 8 [], CacheView 9 []]), cacheViewIndex = 0\<rparr>,
        \<lparr>cacheItem = Some 0, cacheItemIndex = 1, cacheView = Some (CacheView 8 []), cacheViewIndex = 1\<rparr>,
        \<lparr>cacheItem = Some 0, cacheItemIndex = 1, cacheView = Some (CacheView 9 []), cacheViewIndex = 2\<rparr>,
        \<lparr>cacheItem = Some 0, cacheItemIndex = 2,
         cacheView = Some (CacheView 7 [CacheView 8 [], CacheView 9 []]), cacheViewIndex = 0\<rparr>,
        \<lparr>cacheItem = Some 0, cacheItemIndex = 2, cacheView = Some (CacheView 8 []), cacheViewIndex = 1\<rparr>,
        \<lparr>cacheItem = Some 0, cacheItemIndex = 2, cacheView = Some (CacheView 9 []), cacheViewIndex = 2\<rparr>],
       (demoSpace False)\<lparr>cacheItems := [1, 0, 0]\<rparr>))
   \<and> forEachCacheView (demoExternals True)
        (Some (observing_visitor (record_while (\<lambda>info. cacheViewIndex info \<noteq> 1))))
      ([], (demoSpace False)\<lparr>cacheItems := [1, 0, 0]\<rparr>) =
     (Inr False,
      ([\<lparr>cacheItem = Some 0, cacheItemIndex = 1,
         cacheView = Some (CacheView 7 [CacheView 8 [], CacheView 9 []]), cacheViewIndex = 0\<rparr>,
        \<lparr>cacheItem = Some 0, cacheItemIndex = 1, cacheView = Some (CacheView 8 []), cacheViewIndex = 1\<rparr>],
       (demoSpace False)\<lparr>cacheItems := [1, 0, 0]\<rparr>))"
  using forEachCacheView_indices [of "demoExternals True" "record_while (\<lambda>info. True)" "[]"
          "(demoSpace False)\<lparr>cacheItems := [1, 0, 0]\<rparr>" "\<lambda>info. cacheViewIndex info \<noteq> 1" "[]"]
        forEachCacheView_indices [of "demoExternals True" "record_while (\<lambda>info. True)" "[]"
          "(demoSpace False)\<lparr>cacheItems := [1, 0, 0]\<rparr>" "\<lambda>info. True" "[]"]
  by (simp add: expectedInfos_def viewsOf_def demo_defs upt_rec)

end
